theory Spec2Isabelle
  imports Main
begin

section \<open>The SQLite database factory (SqliteDbFactory)\<close>

subsection \<open>Errors\<close>

text \<open>
  \<open>ERROR_STATUS\<close> and \<open>ERROR_SEVERITY\<close> are enumerations of another package. The source
  names one status, \<open>NO_SCHEMA_FOUND\<close>, and one severity, \<open>MINOR\<close>; every other status is
  kept by its name. An error value is a \<open>DendronError\<close> with its four properties (absent
  ones are \<^const>\<open>None\<close>), a \<open>DendronCompositeError\<close> over a list of errors, or any other
  error value, kept by its message.
\<close>

datatype ERROR_STATUS = NO_SCHEMA_FOUND | OTHER_STATUS string

datatype ERROR_SEVERITY = MINOR | FATAL

datatype dendron_error =
    DendronError string "ERROR_STATUS option" "ERROR_SEVERITY option" "dendron_error option"
  | DendronCompositeError "dendron_error list"
  | JsError string

subsection \<open>Promises and results\<close>

text \<open>
  A promise settles in one of two ways. A \<open>Result\<close> is a sum, \<^const>\<open>Inl\<close> the error;
  a \<open>ResultAsync\<close> is a promise of a \<open>Result\<close>.
\<close>

datatype ('r, 'a) promise = Resolved 'a | Rejected 'r

text \<open>
  \<open>ResultAsync.combine\<close> waits for every member and then returns the first error in list
  order, or the list of all values. \<open>ResultAsync.combineWithAllErrors\<close> returns the list
  of all errors when there is one.
\<close>

fun combine :: "('e + 'a) list \<Rightarrow> 'e + 'a list" where
  "combine [] = Inr []"
| "combine (Inl e # rs) = Inl e"
| "combine (Inr a # rs) = (case combine rs of Inl e \<Rightarrow> Inl e | Inr as \<Rightarrow> Inr (a # as))"

fun result_errors :: "('e + 'a) list \<Rightarrow> 'e list" where
  "result_errors [] = []"
| "result_errors (Inl e # rs) = e # result_errors rs"
| "result_errors (Inr a # rs) = result_errors rs"

fun result_values :: "('e + 'a) list \<Rightarrow> 'a list" where
  "result_values [] = []"
| "result_values (Inl e # rs) = result_values rs"
| "result_values (Inr a # rs) = a # result_values rs"

definition combineWithAllErrors :: "('e + 'a) list \<Rightarrow> 'e list + 'a list" where
  "combineWithAllErrors rs =
     (if result_errors rs = [] then Inr (result_values rs) else Inl (result_errors rs))"

text \<open>
  \<open>Promise.all\<close> resolves with all values when every member resolves. When members
  reject it rejects with the reason of the one that rejected first in time; the model
  keeps the reasons of all rejected members, one of which is the reason reported.
\<close>

fun rejections :: "('r, 'a) promise list \<Rightarrow> 'r list" where
  "rejections [] = []"
| "rejections (Rejected r # ps) = r # rejections ps"
| "rejections (Resolved a # ps) = rejections ps"

fun resolutions :: "('r, 'a) promise list \<Rightarrow> 'a list" where
  "resolutions [] = []"
| "resolutions (Rejected r # ps) = resolutions ps"
| "resolutions (Resolved a # ps) = a # resolutions ps"

definition promise_all :: "('r, 'a) promise list \<Rightarrow> ('r list, 'a list) promise" where
  "promise_all ps = (if rejections ps = [] then Resolved (resolutions ps) else Rejected (rejections ps))"

subsection \<open>The store\<close>

datatype table = Vaults | NoteProps | Links | VaultNotes | Hierarchy | SchemaNotes | NotePropsFts

text \<open>
  One member of a \<open>ResultAsync.combine\<close> batch of \<open>createEmptyDB\<close>: the \<open>createTable\<close> of a
  table, or the statement \<open>PRAGMA foreign_keys = ON\<close>.
\<close>

datatype step = CreateTable table | PragmaForeignKeysOn

type_synonym row = "table \<times> string"

record Database =
  file_path :: string
  tables :: "table set"
  foreign_keys :: bool
  rows :: "row list"

text \<open>
  What the SQLite library answers: the error of opening the database, if any, and the
  error of each step, if any. The table helpers and \<open>SqliteQueryUtils.run\<close> are not part
  of the sources at hand; each returns a \<open>ResultAsync\<close>, whose outcome is \<open>step_error\<close>.
\<close>

record sqlite_env =
  open_error :: "string option"
  step_error :: "step \<Rightarrow> dendron_error option"

definition new_Database :: "string \<Rightarrow> Database" where
  "new_Database path = \<lparr>file_path = path, tables = {}, foreign_keys = False, rows = []\<rparr>"

fun apply_step :: "step \<Rightarrow> Database \<Rightarrow> Database" where
  "apply_step (CreateTable t) db = db\<lparr>tables := insert t (tables db)\<rparr>"
| "apply_step PragmaForeignKeysOn db = db\<lparr>foreign_keys := True\<rparr>"

subsection \<open>createEmptyDB\<close>

text \<open>
  The two array literals passed to \<open>ResultAsync.combine\<close>, in source order.
\<close>

definition phase1_tables :: "table list" where
  "phase1_tables = [Vaults, NoteProps, Links]"

definition phase2_tables :: "table list" where
  "phase2_tables = [VaultNotes, Hierarchy, SchemaNotes, NotePropsFts]"

definition phase1 :: "step list" where
  "phase1 = map CreateTable phase1_tables"

definition phase2 :: "step list" where
  "phase2 = map CreateTable phase2_tables @ [PragmaForeignKeysOn]"

text \<open>
  What the program does and observes, in order: the database is opened, a step is issued
  (the call that starts it), a step settles (the program is told its outcome).

  Evaluating an array literal calls its members in order, so every step of a batch is
  issued before control returns to the event loop, and only then can an outcome be
  delivered. The order in which the outcomes of a batch arrive is not fixed by the
  program: it is the parameter \<open>completion\<close>, an arrangement of the batch.
\<close>

datatype event = Opened | OpenFailed | Issued step | Settled step "dendron_error option"

definition batch_events :: "sqlite_env \<Rightarrow> step list \<Rightarrow> step list \<Rightarrow> event list" where
  "batch_events env batch completion =
     map Issued batch @ map (\<lambda>s. Settled s (step_error env s)) completion"

definition step_result :: "sqlite_env \<Rightarrow> step \<Rightarrow> dendron_error + unit" where
  "step_result env s = (case step_error env s of None \<Rightarrow> Inr () | Some e \<Rightarrow> Inl e)"

definition batch_result :: "sqlite_env \<Rightarrow> step list \<Rightarrow> dendron_error + unit list" where
  "batch_result env batch = combine (map (step_result env) batch)"

text \<open>
  \<open>createEmptyDB\<close>: open, then the first batch, then (\<open>andThen\<close>: only on success) the
  second batch, then (\<open>map\<close>: only on success) the handle. The opening callback rejects
  with \<open>err.message\<close>. The model returns the events and the result.
\<close>

definition createEmptyDB_run ::
  "sqlite_env \<Rightarrow> step list \<Rightarrow> step list \<Rightarrow> string \<Rightarrow> event list \<times> (dendron_error + Database)" where
  "createEmptyDB_run env completion1 completion2 path =
     (case open_error env of
        Some msg \<Rightarrow> ([OpenFailed], Inl (JsError msg))
      | None \<Rightarrow>
          (case batch_result env phase1 of
             Inl e \<Rightarrow> (Opened # batch_events env phase1 completion1, Inl e)
           | Inr _ \<Rightarrow>
               (Opened # batch_events env phase1 completion1 @ batch_events env phase2 completion2,
                case batch_result env phase2 of
                  Inl e \<Rightarrow> Inl e
                | Inr _ \<Rightarrow> Inr (fold apply_step (phase1 @ phase2) (new_Database path)))))"

definition createEmptyDB ::
  "sqlite_env \<Rightarrow> step list \<Rightarrow> step list \<Rightarrow> string \<Rightarrow> dendron_error + Database" where
  "createEmptyDB env completion1 completion2 path =
     snd (createEmptyDB_run env completion1 completion2 path)"

definition createEmptyDB_trace ::
  "sqlite_env \<Rightarrow> step list \<Rightarrow> step list \<Rightarrow> string \<Rightarrow> event list" where
  "createEmptyDB_trace env completion1 completion2 path =
     fst (createEmptyDB_run env completion1 completion2 path)"

text \<open>\<open>before a b tr\<close>: event \<open>a\<close> occurs in \<open>tr\<close> ahead of the first occurrence of \<open>b\<close>.\<close>

definition before :: "event \<Rightarrow> event \<Rightarrow> event list \<Rightarrow> bool" where
  "before a b tr = (a \<in> set (takeWhile (\<lambda>e. e \<noteq> b) tr))"

subsection \<open>Vaults and collaborators\<close>

record DVault =
  fsPath :: string
  name :: "string option"

text \<open>
  \<open>createInitializedDB\<close> builds the root with \<open>URI.parse\<close>, the schema readers with
  \<open>URI.file\<close>.
\<close>

datatype URI = URI_parse string | URI_file string

text \<open>
  \<open>IFileStore.readDir\<close> returns a promise of a response that holds either \<open>data\<close> or
  \<open>error\<close>; like every promise it can also reject.
\<close>

datatype readDir_result =
    RespData "string list"
  | RespError dendron_error
  | ReadDirRejected dendron_error

fun resp_data :: "readDir_result \<Rightarrow> string list option" where
  "resp_data (RespData files) = Some files"
| "resp_data (RespError e) = None"
| "resp_data (ReadDirRejected e) = None"

record SchemaModuleProps =
  root_id :: string
  fname :: string

text \<open>What \<open>SchemaParser.parse\<close> resolves with; \<open>errors\<close> is \<open>null\<close> when there is none.\<close>

record schema_parse =
  schemas :: "SchemaModuleProps list"
  errors :: "dendron_error list option"

text \<open>
  The collaborators, none of which is part of the sources at hand, are parameters:
  \<open>vault2Path\<close>, \<open>VaultUtils.getName\<close>, the file store's \<open>readDir\<close>, the note parser
  \<open>parseAllNoteFilesForSqlite\<close> (its arguments: the files, which are \<open>undefined\<close> when the
  response has no data, the vault, the database, the vault path and the link-candidate
  flag; it writes to the database and returns a promise of some value of type \<open>'v\<close>), and
  \<open>SchemaParser.parse\<close> (its promise is passed to \<open>fromSafePromise\<close>: it does not reject).
\<close>

record 'v collaborators =
  vault2Path :: "DVault \<Rightarrow> string \<Rightarrow> string"
  getName :: "DVault \<Rightarrow> string"
  readDir :: "URI \<Rightarrow> string list \<Rightarrow> readDir_result"
  parseAllNoteFilesForSqlite ::
    "string list option \<Rightarrow> DVault \<Rightarrow> Database \<Rightarrow> string \<Rightarrow> bool
       \<Rightarrow> (dendron_error, 'v) promise \<times> Database"
  schemaParse :: "string list \<Rightarrow> DVault \<Rightarrow> schema_parse"

subsection \<open>createInitializedDB\<close>

text \<open>
  One vault. \<open>ResultAsync.fromPromise\<close> turns a rejection of \<open>readDir\<close> into an error
  result and any response it resolves with into a success. \<open>map\<close> then calls the parser
  with \<open>maybeFiles.data\<close>, awaits what it returns and wraps that value as a success; a
  rejection of the parser is not caught.
\<close>

definition initializeVault ::
  "'v collaborators \<Rightarrow> string \<Rightarrow> DVault \<Rightarrow> Database
     \<Rightarrow> (dendron_error, dendron_error + 'v) promise \<times> Database" where
  "initializeVault co wsRoot vault db =
     (let vaultPath = vault2Path co vault wsRoot in
      case readDir co (URI_parse vaultPath) [''*.md''] of
        ReadDirRejected e \<Rightarrow> (Resolved (Inl e), db)
      | maybeFiles \<Rightarrow>
          (case parseAllNoteFilesForSqlite co (resp_data maybeFiles) vault db vaultPath False of
             (Resolved v, db') \<Rightarrow> (Resolved (Inr v), db')
           | (Rejected e, db') \<Rightarrow> (Rejected e, db')))"

text \<open>
  All vaults. The vaults are started together and write to the one database; the model
  lets them write in list order.
\<close>

fun initializeVaults ::
  "'v collaborators \<Rightarrow> string \<Rightarrow> DVault list \<Rightarrow> Database
     \<Rightarrow> (dendron_error, dendron_error + 'v) promise list \<times> Database" where
  "initializeVaults co wsRoot [] db = ([], db)"
| "initializeVaults co wsRoot (vault # vaults) db =
     (case initializeVault co wsRoot vault db of
        (p, db1) \<Rightarrow>
          (case initializeVaults co wsRoot vaults db1 of
             (ps, db2) \<Rightarrow> (p # ps, db2)))"

text \<open>
  \<open>createInitializedDB\<close>: \<open>createEmptyDB\<close>, then (\<open>andThen\<close>) the combination of all
  vaults, then (\<open>map\<close>) the handle. The call throws when a member of the combination
  rejects.
\<close>

definition createInitializedDB ::
  "'v collaborators \<Rightarrow> sqlite_env \<Rightarrow> step list \<Rightarrow> step list \<Rightarrow> string \<Rightarrow> DVault list \<Rightarrow> string
     \<Rightarrow> (dendron_error list, dendron_error + Database) promise" where
  "createInitializedDB co env completion1 completion2 wsRoot vaults dbFilePath =
     (case createEmptyDB env completion1 completion2 dbFilePath of
        Inl e \<Rightarrow> Resolved (Inl e)
      | Inr db \<Rightarrow>
          (case initializeVaults co wsRoot vaults db of
             (ps, db') \<Rightarrow>
               (case promise_all ps of
                  Rejected reasons \<Rightarrow> Rejected reasons
                | Resolved results \<Rightarrow>
                    (case combine results of
                       Inl e \<Rightarrow> Resolved (Inl e)
                     | Inr _ \<Rightarrow> Resolved (Inr db')))))"

text \<open>
  Modelled from the spec: the note parser \<open>parseAllNoteFilesForSqlite\<close> is imported from
  \<open>../file\<close> and is missing from the sources. The spec (4.2, 6) has it parse each listed
  entry with the external per-file parser (the parameter \<open>parseFile\<close>) and write the
  resulting rows; it returns the count of inserted rows and the errors; an error of one
  file does not stop the others; a vault with no matching file is not an error and
  contributes no row.
\<close>

record note_parse_report =
  inserted :: nat
  note_errors :: "dendron_error list"

fun parseAllNoteFiles_spec ::
  "(string \<Rightarrow> DVault \<Rightarrow> dendron_error + row list) \<Rightarrow> string list \<Rightarrow> DVault \<Rightarrow> Database
     \<Rightarrow> note_parse_report \<times> Database" where
  "parseAllNoteFiles_spec parseFile [] vault db = (\<lparr>inserted = 0, note_errors = []\<rparr>, db)"
| "parseAllNoteFiles_spec parseFile (file # files) vault db =
     (case parseFile file vault of
        Inl e \<Rightarrow>
          (case parseAllNoteFiles_spec parseFile files vault db of
             (report, db') \<Rightarrow> (report\<lparr>note_errors := e # note_errors report\<rparr>, db'))
      | Inr new_rows \<Rightarrow>
          (case parseAllNoteFiles_spec parseFile files vault (db\<lparr>rows := rows db @ new_rows\<rparr>) of
             (report, db') \<Rightarrow> (report\<lparr>inserted := length new_rows + inserted report\<rparr>, db')))"

subsection \<open>initSchema\<close>

text \<open>
  Modelled from the spec: \<open>ResultUtils.PromiseRespV3ToResultAsync\<close> is a helper of the
  common-all package and is missing from the sources. The file store answers a listing
  with the list of entries or with an error (6); the helper turns the promise of that
  answer into a \<open>ResultAsync\<close>, the list a success and the error a failure.
\<close>

fun PromiseRespV3ToResultAsync :: "readDir_result \<Rightarrow> dendron_error + string list" where
  "PromiseRespV3ToResultAsync (RespData files) = Inr files"
| "PromiseRespV3ToResultAsync (RespError e) = Inl e"
| "PromiseRespV3ToResultAsync (ReadDirRejected e) = Inl e"

definition initSchema_vault ::
  "'v collaborators \<Rightarrow> string \<Rightarrow> DVault \<Rightarrow> dendron_error + schema_parse" where
  "initSchema_vault co wsRoot vault =
     (let vaultPath = vault2Path co vault wsRoot in
      case PromiseRespV3ToResultAsync (readDir co (URI_file vaultPath) [''*.schema.yml'']) of
        Inl e \<Rightarrow> Inl e
      | Inr schemaFiles \<Rightarrow> Inr (schemaParse co schemaFiles vault))"

text \<open>The two local variables the callback assigns to.\<close>

record initSchema_vars =
  var_errors :: "dendron_error list"
  var_schemaDict :: "string \<rightharpoonup> SchemaModuleProps"

text \<open>
  The callback given to \<open>map\<close>: it collects the errors of all responses (a \<open>null\<close> is
  dropped) and stores every schema of every response under its root id, in order.
\<close>

definition initSchema_callback :: "schema_parse list \<Rightarrow> initSchema_vars \<Rightarrow> initSchema_vars" where
  "initSchema_callback res vars =
     \<lparr>var_errors = concat (map (\<lambda>response. case errors response of None \<Rightarrow> [] | Some es \<Rightarrow> es) res),
      var_schemaDict =
        fold (\<lambda>schema dict. dict(root_id schema \<mapsto> schema)) (concat (map schemas res))
          (var_schemaDict vars)\<rparr>"

text \<open>
  \<open>initSchema\<close> returns a reference to the object \<open>schemaDict\<close>, or an error. The
  combination of the vaults' pipelines is started and the callback is attached to it, but
  nothing waits for it: the \<open>if\<close> that follows reads \<open>errors\<close> in the same turn, before any
  callback of a promise can run. The outcome holds what is returned, the variables at
  that moment, and the variables once the combination has settled (the callback runs
  only then, and only when the combination is a success).
\<close>

datatype object_ref = The_schemaDict

record initSchema_outcome =
  returned :: "dendron_error + object_ref"
  vars_at_return :: initSchema_vars
  vars_settled :: initSchema_vars

definition initSchema :: "DVault list \<Rightarrow> string \<Rightarrow> 'v collaborators \<Rightarrow> initSchema_outcome" where
  "initSchema vaults wsRoot co =
     (let vars0 = \<lparr>var_errors = [], var_schemaDict = Map.empty\<rparr>;
          pending = combineWithAllErrors (map (initSchema_vault co wsRoot) vaults);
          result =
            (if length (var_errors vars0) > 0
             then Inl (DendronCompositeError (var_errors vars0))
             else Inr The_schemaDict);
          vars1 = (case pending of Inl es \<Rightarrow> vars0 | Inr res \<Rightarrow> initSchema_callback res vars0)
      in \<lparr>returned = result, vars_at_return = vars0, vars_settled = vars1\<rparr>)"

subsection \<open>readAllSchema\<close>

text \<open>
  \<open>readAllSchema\<close> awaits \<open>Promise.all\<close> over the vaults. The entries of a listing are
  strings, so \<open>entry.toString()\<close> leaves them as they are. The local \<open>errorList\<close> is
  written and never read; it is left out.
\<close>

record RespWithOptError =
  error :: "dendron_error option"
  data :: "SchemaModuleProps list"

definition no_schema_found :: "'v collaborators \<Rightarrow> DVault \<Rightarrow> dendron_error option \<Rightarrow> dendron_error" where
  "no_schema_found co vault cause =
     DendronError (''Unable to get schemas for vault '' @ getName co vault)
       (Some NO_SCHEMA_FOUND) (Some MINOR) cause"

definition readAllSchema_vault ::
  "'v collaborators \<Rightarrow> string \<Rightarrow> DVault \<Rightarrow> (dendron_error, RespWithOptError) promise" where
  "readAllSchema_vault co wsRoot vault =
     (let vpath = vault2Path co vault wsRoot in
      case readDir co (URI_file vpath) [''*.schema.yml''] of
        ReadDirRejected e \<Rightarrow> Rejected e
      | RespError e \<Rightarrow>
          Resolved \<lparr>error = Some (DendronCompositeError [no_schema_found co vault (Some e)]), data = []\<rparr>
      | RespData files \<Rightarrow>
          if length files = 0
          then Resolved \<lparr>error = Some (DendronCompositeError [no_schema_found co vault None]), data = []\<rparr>
          else (let parsed = schemaParse co files vault in
                Resolved \<lparr>error = (case errors parsed of
                                      None \<Rightarrow> None
                                    | Some es \<Rightarrow> Some (DendronCompositeError es)),
                          data = schemas parsed\<rparr>))"

definition readAllSchema ::
  "DVault list \<Rightarrow> string \<Rightarrow> 'v collaborators \<Rightarrow> (dendron_error list, RespWithOptError) promise" where
  "readAllSchema vaults wsRoot co =
     (case promise_all (map (readAllSchema_vault co wsRoot) vaults) of
        Rejected reasons \<Rightarrow> Rejected reasons
      | Resolved schemaResponses \<Rightarrow>
          (let errs = concat (map (\<lambda>response. case error response of None \<Rightarrow> [] | Some e \<Rightarrow> [e])
                                  schemaResponses)
           in Resolved \<lparr>error = (if length errs > 0 then Some (DendronCompositeError errs) else None),
                        data = concat (map data schemaResponses)\<rparr>))"

section \<open>Lookup auto completion (AutoCompleter, UIAutoCompletableCmds)\<close>

subsection \<open>String primitives of the host language\<close>

text \<open>
  The source works on JavaScript strings. They are modelled as \<^typ>\<open>string\<close>, one list
  element per code unit. \<open>indexOf\<close> returns \<open>-1\<close> when nothing is found; the model
  returns \<^const>\<open>None\<close> there.
\<close>

definition startsWith :: "string \<Rightarrow> string \<Rightarrow> bool" where
  "startsWith s p = (take (length p) s = p)"

definition indexOf :: "string \<Rightarrow> string \<Rightarrow> nat \<Rightarrow> nat option" where
  "indexOf s p pos =
     List.find (\<lambda>i. startsWith (drop i s) p) [min pos (length s) ..< Suc (length s)]"

definition includes_str :: "string \<Rightarrow> string \<Rightarrow> bool" where
  "includes_str s p = (indexOf s p 0 \<noteq> None)"

definition substring :: "string \<Rightarrow> nat \<Rightarrow> nat \<Rightarrow> string" where
  "substring s a b =
     (let a' = min a (length s); b' = min b (length s)
      in take (max a' b' - min a' b') (drop (min a' b') s))"

subsection \<open>AutoCompleter\<close>

text \<open>
  \<open>matchPrefixTillNextDot\<close> (private static): looks for the next dot of the top pick at
  or after \<open>max(value.length, minIdx)\<close>; a dot found exactly at \<open>value.length\<close> makes it
  search again one position further.
\<close>

function matchPrefixTillNextDot :: "string \<Rightarrow> string \<Rightarrow> nat \<Rightarrow> string" where
  "matchPrefixTillNextDot topPick val minIdx =
     (if max (length val) minIdx \<ge> length topPick then topPick
      else (case indexOf topPick ''.'' (max (length val) minIdx) of
              None \<Rightarrow> topPick
            | Some dotIdx \<Rightarrow>
                if dotIdx = length val
                then matchPrefixTillNextDot topPick val (dotIdx + 1)
                else substring topPick 0 dotIdx))"
  by pat_completeness auto
termination
proof (relation "measure (\<lambda>(topPick, val, minIdx). Suc (length val) - minIdx)")
  show "wf (measure (\<lambda>(topPick, val, minIdx). Suc (length val) - minIdx))"
    by simp
next
  fix topPick val :: string and minIdx dotIdx :: nat
  assume small: "\<not> length topPick \<le> max (length val) minIdx"
    and found: "indexOf topPick ''.'' (max (length val) minIdx) = Some dotIdx"
    and at_end: "dotIdx = length val"
  let ?from = "min (max (length val) minIdx) (length topPick)"
  from found obtain k where "dotIdx = [?from ..< Suc (length topPick)] ! k"
    and "k < length [?from ..< Suc (length topPick)]"
    unfolding indexOf_def find_Some_iff by blast
  then have "dotIdx = ?from + k"
    by (simp del: upt_Suc)
  with small have "max (length val) minIdx \<le> dotIdx"
    by (simp add: min_def max_def split: if_splits)
  with at_end have "minIdx \<le> length val"
    by simp
  with at_end
  show "((topPick, val, dotIdx + 1), (topPick, val, minIdx))
          \<in> measure (\<lambda>(topPick, val, minIdx). Suc (length val) - minIdx)"
    by simp
qed

definition matchNoteUpToCurrValue :: "string \<Rightarrow> string \<Rightarrow> string" where
  "matchNoteUpToCurrValue topPick currentValue =
     (case indexOf topPick currentValue 0 of
        None \<Rightarrow> topPick
      | Some idx \<Rightarrow> substring topPick 0 idx @ currentValue)"

text \<open>
  \<open>autoCompleteNoteLookup\<close>. \<open>FuseEngine.doesContainSpecialQueryChars\<close> belongs to another
  package; it is the parameter \<open>special\<close>. \<open>topPickIdx\<close> is \<open>0\<close> everywhere except in
  the branch that moves to the next suggestion, where it is \<open>1\<close>; every index read is
  guarded by the length tests of the source.
\<close>

definition autoCompleteNoteLookup ::
  "(string \<Rightarrow> bool) \<Rightarrow> string \<Rightarrow> string \<Rightarrow> string list \<Rightarrow> string" where
  "autoCompleteNoteLookup special currentValue activeItemValue fnames =
     (if length fnames = 0 then currentValue
      else if currentValue \<noteq> activeItemValue \<and> activeItemValue \<in> set fnames
        then activeItemValue
      else if special currentValue then fnames ! 0
      else if length currentValue > length (fnames ! 0) then currentValue
      else if startsWith (fnames ! 0) currentValue then
        (if fnames ! 0 = currentValue then
           (if 0 < length fnames - 1 \<and> startsWith (fnames ! (0 + 1)) currentValue
            then matchPrefixTillNextDot (fnames ! (0 + 1)) currentValue 0
            else fnames ! 0)
         else matchPrefixTillNextDot (fnames ! 0) currentValue 0)
      else if includes_str (fnames ! 0) currentValue
        then matchNoteUpToCurrValue (fnames ! 0) currentValue
      else fnames ! 0)"

subsection \<open>UIAutoCompletableCmds\<close>

datatype AUTO_COMPLETABLE_COMMAND_ID = NOTE_LOOKUP

fun id_text :: "AUTO_COMPLETABLE_COMMAND_ID \<Rightarrow> string" where
  "id_text NOTE_LOOKUP = ''NOTE_LOOKUP''"

datatype registry_error = InvalidStateError string

text \<open>
  The static map \<open>_UI_AUTOCOMPLETE_COMMANDS\<close> is the state; each operation takes it and
  \<open>registerIfNotRegistered\<close> returns the new one. The command instances are of an
  arbitrary type \<open>'cmd\<close>.
\<close>

type_synonym 'cmd registry = "AUTO_COMPLETABLE_COMMAND_ID \<rightharpoonup> 'cmd"

definition registerIfNotRegistered ::
  "AUTO_COMPLETABLE_COMMAND_ID \<Rightarrow> 'cmd \<Rightarrow> 'cmd registry \<Rightarrow> 'cmd registry" where
  "registerIfNotRegistered i cmd reg = (if reg i = None then reg(i \<mapsto> cmd) else reg)"

definition getCmd :: "AUTO_COMPLETABLE_COMMAND_ID \<Rightarrow> 'cmd registry \<Rightarrow> registry_error + 'cmd" where
  "getCmd i reg =
     (case reg i of
        None \<Rightarrow>
          Inl (InvalidStateError
                 (''UI command instance does not exist for '' @ [CHR 0x27] @ id_text i @ [CHR 0x27]))
      | Some cmd \<Rightarrow> Inr cmd)"

text \<open>A sequence of registration calls, applied in order.\<close>

fun register_calls ::
  "(AUTO_COMPLETABLE_COMMAND_ID \<times> 'cmd) list \<Rightarrow> 'cmd registry \<Rightarrow> 'cmd registry" where
  "register_calls [] reg = reg"
| "register_calls ((i, cmd) # calls) reg = register_calls calls (registerIfNotRegistered i cmd reg)"

section \<open>Example inputs\<close>

text \<open>Answers of the SQLite library: everything succeeds; the database cannot be opened;
  the creation of the Hierarchy table fails.\<close>

definition all_ok :: sqlite_env where
  "all_ok = \<lparr>open_error = None, step_error = (\<lambda>s. None)\<rparr>"

definition cannot_open :: sqlite_env where
  "cannot_open = \<lparr>open_error = Some ''SQLITE_CANTOPEN'', step_error = (\<lambda>s. None)\<rparr>"

definition hierarchy_fails :: sqlite_env where
  "hierarchy_fails =
     \<lparr>open_error = None,
      step_error = (\<lambda>s. if s = CreateTable Hierarchy then Some (JsError ''SQLITE_FULL'') else None)\<rparr>"

definition vault1 :: DVault where
  "vault1 = \<lparr>fsPath = ''vault1'', name = None\<rparr>"

definition vault2 :: DVault where
  "vault2 = \<lparr>fsPath = ''vault2'', name = None\<rparr>"

text \<open>
  A note parser that follows \<open>parseAllNoteFiles_spec\<close> on a list of files and rejects
  when the list is absent.
\<close>

definition example_parser ::
  "(string \<Rightarrow> DVault \<Rightarrow> dendron_error + row list) \<Rightarrow> string list option \<Rightarrow> DVault \<Rightarrow> Database
     \<Rightarrow> string \<Rightarrow> bool \<Rightarrow> (dendron_error, note_parse_report) promise \<times> Database" where
  "example_parser parseFile maybe_files vault db vaultPath flag =
     (case maybe_files of
        None \<Rightarrow> (Rejected (JsError ''TypeError''), db)
      | Some files \<Rightarrow>
          (case parseAllNoteFiles_spec parseFile files vault db of
             (report, db') \<Rightarrow> (Resolved report, db')))"

definition example_co ::
  "(URI \<Rightarrow> string list \<Rightarrow> readDir_result) \<Rightarrow> (string \<Rightarrow> DVault \<Rightarrow> dendron_error + row list)
     \<Rightarrow> (string list \<Rightarrow> DVault \<Rightarrow> schema_parse) \<Rightarrow> note_parse_report collaborators" where
  "example_co listing parseFile parseSchemas =
     \<lparr>vault2Path = (\<lambda>vault wsRoot. wsRoot @ ''/'' @ fsPath vault),
      getName = (\<lambda>vault. case name vault of None \<Rightarrow> fsPath vault | Some n \<Rightarrow> n),
      readDir = listing,
      parseAllNoteFilesForSqlite = example_parser parseFile,
      schemaParse = parseSchemas\<rparr>"

definition no_schemas :: "string list \<Rightarrow> DVault \<Rightarrow> schema_parse" where
  "no_schemas files vault = \<lparr>schemas = [], errors = None\<rparr>"

text \<open>The one note file of every vault does not parse.\<close>

definition co_parse_error :: "note_parse_report collaborators" where
  "co_parse_error =
     example_co (\<lambda>root incl. RespData [''bad.md'']) (\<lambda>file vault. Inl (JsError ''bad note''))
       no_schemas"

text \<open>The file store answers every listing with an error response.\<close>

definition co_listing_error :: "note_parse_report collaborators" where
  "co_listing_error =
     example_co (\<lambda>root incl. RespError (JsError ''unreadable'')) (\<lambda>file vault. Inr []) no_schemas"

text \<open>No vault has a note file.\<close>

definition co_no_files :: "note_parse_report collaborators" where
  "co_no_files =
     example_co (\<lambda>root incl. RespData []) (\<lambda>file vault. Inr [(NoteProps, file)]) no_schemas"

definition book_v1 :: SchemaModuleProps where
  "book_v1 = \<lparr>root_id = ''book'', fname = ''book.schema.yml''\<rparr>"

definition book_v2 :: SchemaModuleProps where
  "book_v2 = \<lparr>root_id = ''book'', fname = ''library.schema.yml''\<rparr>"

text \<open>The one schema file of every vault does not parse.\<close>

definition co_schema_error :: "note_parse_report collaborators" where
  "co_schema_error =
     example_co (\<lambda>root incl. RespData [''bad.schema.yml'']) (\<lambda>file vault. Inr [])
       (\<lambda>files vault. \<lparr>schemas = [], errors = Some [JsError ''bad schema'']\<rparr>)"

text \<open>Both vaults define a schema with the root id \<open>book\<close>.\<close>

definition co_same_root :: "note_parse_report collaborators" where
  "co_same_root =
     example_co (\<lambda>root incl. RespData [''book.schema.yml'']) (\<lambda>file vault. Inr [])
       (\<lambda>files vault. \<lparr>schemas = (if fsPath vault = ''vault1'' then [book_v1] else [book_v2]),
                         errors = None\<rparr>)"

text \<open>The first vault has no schema file, every other vault has one.\<close>

definition co_one_empty :: "note_parse_report collaborators" where
  "co_one_empty =
     example_co
       (\<lambda>root incl. if root = URI_file ''/ws/vault1'' then RespData []
                     else RespData [''book.schema.yml''])
       (\<lambda>file vault. Inr [])
       (\<lambda>files vault. \<lparr>schemas = [book_v1], errors = None\<rparr>)"

text \<open>The listing of the first vault fails, the second vault has one schema.\<close>

definition co_one_unreadable :: "note_parse_report collaborators" where
  "co_one_unreadable =
     example_co
       (\<lambda>root incl. if root = URI_file ''/ws/vault1'' then RespError (JsError ''unreadable'')
                     else RespData [''book.schema.yml''])
       (\<lambda>file vault. Inr [])
       (\<lambda>files vault. \<lparr>schemas = [book_v1], errors = None\<rparr>)"

section \<open>Properties of the database factory\<close>

subsection \<open>Combinators\<close>

lemmas phase_defs = phase1_def phase2_def phase1_tables_def phase2_tables_def

lemma promise_all_resolved:
  "promise_all (map (\<lambda>x. Resolved (f x)) xs) = Resolved (map f xs)"
proof -
  have none: "rejections (map (\<lambda>x. Resolved (f x)) xs) = []"
    by (induction xs) auto
  have every: "resolutions (map (\<lambda>x. Resolved (f x)) xs) = map f xs"
    by (induction xs) auto
  show ?thesis
    unfolding promise_all_def none every by simp
qed

lemma promise_all_no_rejection:
  assumes "\<forall>p \<in> set ps. \<exists>a. p = Resolved a"
  shows "promise_all ps = Resolved (resolutions ps)"
    and "\<forall>a. Resolved a \<in> set ps \<longrightarrow> a \<in> set (resolutions ps)"
proof -
  from assms have "rejections ps = []"
    by (induction ps) auto
  then show "promise_all ps = Resolved (resolutions ps)"
    by (simp add: promise_all_def)
  show "\<forall>a. Resolved a \<in> set ps \<longrightarrow> a \<in> set (resolutions ps)"
    by (induction ps rule: resolutions.induct) auto
qed

lemma combine_all_ok: "combine (map (\<lambda>x. Inr (f x)) xs) = Inr (map f xs)"
  by (induction xs) auto

lemma combineWithAllErrors_all_ok:
  "combineWithAllErrors (map (\<lambda>x. Inr (f x)) xs) = Inr (map f xs)"
proof -
  have none: "result_errors (map (\<lambda>x. Inr (f x)) xs) = []"
    by (induction xs) auto
  have every: "result_values (map (\<lambda>x. Inr (f x)) xs) = map f xs"
    by (induction xs) auto
  show ?thesis
    unfolding combineWithAllErrors_def none every by simp
qed

lemma find_in_append:
  "List.find P (xs @ ys) = (case List.find P xs of None \<Rightarrow> List.find P ys | Some x \<Rightarrow> Some x)"
  by (induction xs) auto

subsection \<open>createEmptyDB\<close>

lemma batch_result_ok_iff:
  "(\<exists>us. batch_result env batch = Inr us) \<longleftrightarrow> (\<forall>s \<in> set batch. step_error env s = None)"
  unfolding batch_result_def
  by (induction batch) (auto simp: step_result_def split: option.splits sum.splits)

lemma createEmptyDB_ok_iff:
  "(\<exists>db. createEmptyDB env c1 c2 path = Inr db) \<longleftrightarrow>
     (open_error env = None \<and> (\<forall>s \<in> set (phase1 @ phase2). step_error env s = None))"
  using batch_result_ok_iff [of env phase1] batch_result_ok_iff [of env phase2]
  unfolding createEmptyDB_def createEmptyDB_run_def
  by (auto split: option.splits sum.splits)

lemma createEmptyDB_value:
  "createEmptyDB env c1 c2 path = Inr db \<Longrightarrow>
   db = fold apply_step (phase1 @ phase2) (new_Database path)"
  unfolding createEmptyDB_def createEmptyDB_run_def
  by (auto split: option.splits sum.splits)

lemma createEmptyDB_all_ok:
  "createEmptyDB all_ok c1 c2 path = Inr (fold apply_step (phase1 @ phase2) (new_Database path))"
  by (simp add: createEmptyDB_def createEmptyDB_run_def all_ok_def batch_result_def
        step_result_def phase_defs)

lemma table_step_in_phases: "CreateTable t \<in> set (phase1 @ phase2)"
  by (cases t) (simp_all add: phase_defs)

lemma full_schema_tables: "tables (fold apply_step (phase1 @ phase2) (new_Database path)) = UNIV"
proof -
  have "t \<in> tables (fold apply_step (phase1 @ phase2) (new_Database path))" for t
    by (cases t) (simp_all add: phase_defs new_Database_def)
  then show ?thesis by blast
qed

lemma full_schema_rows: "rows (fold apply_step (phase1 @ phase2) (new_Database path)) = []"
  by (simp add: phase_defs new_Database_def)

text \<open>A trace in which a step of the second batch is issued has run the whole first
  batch with success.\<close>

lemma trace_reaching_phase2:
  assumes "Issued s \<in> set (createEmptyDB_trace env c1 c2 path)" and "s \<in> set phase2"
  shows "createEmptyDB_trace env c1 c2 path
           = Opened # batch_events env phase1 c1 @ batch_events env phase2 c2"
    and "\<forall>s \<in> set phase1. step_error env s = None"
proof -
  have not1: "Issued s \<notin> set (Opened # batch_events env phase1 c1)"
    using assms(2) by (auto simp: batch_events_def phase_defs)
  from assms(1) not1 obtain us where ok: "open_error env = None" "batch_result env phase1 = Inr us"
    unfolding createEmptyDB_trace_def createEmptyDB_run_def
    by (auto split: option.splits sum.splits)
  then show "createEmptyDB_trace env c1 c2 path
           = Opened # batch_events env phase1 c1 @ batch_events env phase2 c2"
    unfolding createEmptyDB_trace_def createEmptyDB_run_def by simp
  from ok(2) show "\<forall>s \<in> set phase1. step_error env s = None"
    using batch_result_ok_iff [of env phase1] by blast
qed

text \<open>Everything the first batch did comes ahead of the first step issued by the second.\<close>

lemma phase1_ahead_of_phase2:
  assumes "set c1 = set phase1" and "s \<in> set phase2"
  shows "takeWhile (\<lambda>e. e \<noteq> Issued s)
           (Opened # batch_events env phase1 c1 @ batch_events env phase2 c2)
         = Opened # batch_events env phase1 c1
             @ takeWhile (\<lambda>e. e \<noteq> Issued s) (batch_events env phase2 c2)"
proof -
  let ?P = "\<lambda>e. e \<noteq> Issued s"
  have first: "?P e" if "e \<in> set (batch_events env phase1 c1)" for e
    using that assms by (auto simp: batch_events_def phase_defs)
  have "takeWhile ?P (batch_events env phase1 c1 @ batch_events env phase2 c2)
          = batch_events env phase1 c1 @ takeWhile ?P (batch_events env phase2 c2)"
    using first by (rule takeWhile_append2)
  then show ?thesis by simp
qed

lemma phase2_ahead_of_pragma:
  "takeWhile (\<lambda>e. e \<noteq> Issued PragmaForeignKeysOn) (batch_events env phase2 c2)
     = map Issued (map CreateTable phase2_tables)"
  by (simp add: batch_events_def phase2_def phase2_tables_def)

text \<open>
  C1, as stated, fails. With every step succeeding and the outcomes arriving in list
  order, \<open>PRAGMA foreign_keys = ON\<close> is issued although not all tables of the second
  batch have been created by then: none of the four has.
\<close>

theorem pragma_issued_before_phase2_tables_exist:
  "Issued PragmaForeignKeysOn \<in> set (createEmptyDB_trace all_ok phase1 phase2 '':memory:'')
   \<and> \<not> list_all (\<lambda>t. before (Settled (CreateTable t) None) (Issued PragmaForeignKeysOn)
                         (createEmptyDB_trace all_ok phase1 phase2 '':memory:'')) phase2_tables
   \<and> list_all (\<lambda>t. \<not> before (Settled (CreateTable t) None) (Issued PragmaForeignKeysOn)
                         (createEmptyDB_trace all_ok phase1 phase2 '':memory:'')) phase2_tables"
  by (simp add: createEmptyDB_trace_def createEmptyDB_run_def all_ok_def batch_result_def
        step_result_def batch_events_def phase_defs before_def)

text \<open>
  C1, amended. Whenever \<open>createEmptyDB\<close> issues \<open>PRAGMA foreign_keys = ON\<close>, in whatever
  order the outcomes of the batches arrive: the three tables of the first batch (Vaults,
  NoteProps, Links) have all been created with success before it and before any table
  creation of the second batch is issued; the four table creations of the second batch
  (VaultNotes, Hierarchy, SchemaNotes, NotePropsFts) have been issued before it; and
  none of these four has settled before it, whatever its outcome: the statement is the
  last member of the second batch and is issued without waiting for the others.
\<close>

theorem createEmptyDB_order:
  assumes arrangement: "set completion1 = set phase1"
    and issued: "Issued PragmaForeignKeysOn
                   \<in> set (createEmptyDB_trace env completion1 completion2 path)"
  shows "list_all (\<lambda>t. before (Settled (CreateTable t) None) (Issued PragmaForeignKeysOn)
                         (createEmptyDB_trace env completion1 completion2 path)) phase1_tables
       \<and> list_all (\<lambda>t1. list_all (\<lambda>t2.
             before (Settled (CreateTable t1) None) (Issued (CreateTable t2))
               (createEmptyDB_trace env completion1 completion2 path)) phase2_tables) phase1_tables
       \<and> list_all (\<lambda>t. before (Issued (CreateTable t)) (Issued PragmaForeignKeysOn)
                         (createEmptyDB_trace env completion1 completion2 path)) phase2_tables
       \<and> list_all (\<lambda>t. \<not> before (Settled (CreateTable t) outcome) (Issued PragmaForeignKeysOn)
                         (createEmptyDB_trace env completion1 completion2 path)) phase2_tables"
proof -
  let ?tr = "createEmptyDB_trace env completion1 completion2 path"
  let ?pragma = "Issued PragmaForeignKeysOn"
  have p2: "PragmaForeignKeysOn \<in> set phase2"
    by (simp add: phase2_def)
  note tr = trace_reaching_phase2 [OF issued p2]
  have pre: "takeWhile (\<lambda>e. e \<noteq> ?pragma) ?tr
               = Opened # batch_events env phase1 completion1
                   @ map Issued (map CreateTable phase2_tables)"
    unfolding tr(1) phase1_ahead_of_phase2 [OF arrangement p2] phase2_ahead_of_pragma ..
  have settled1: "Settled (CreateTable t) None \<in> set (batch_events env phase1 completion1)"
    if "t \<in> set phase1_tables" for t
  proof -
    from that have "CreateTable t \<in> set completion1"
      by (simp add: arrangement phase1_def)
    then have "Settled (CreateTable t) (step_error env (CreateTable t))
                 \<in> set (batch_events env phase1 completion1)"
      by (simp add: batch_events_def)
    moreover from tr(2) that have "step_error env (CreateTable t) = None"
      by (simp add: phase1_def)
    ultimately show ?thesis by simp
  qed
  have a: "list_all (\<lambda>t. before (Settled (CreateTable t) None) ?pragma ?tr) phase1_tables"
    unfolding list_all_iff before_def pre using settled1 by simp
  have "before (Settled (CreateTable t1) None) (Issued (CreateTable t2)) ?tr"
    if "t1 \<in> set phase1_tables" and "t2 \<in> set phase2_tables" for t1 t2
  proof -
    from that(2) have "CreateTable t2 \<in> set phase2"
      by (simp add: phase2_def)
    from phase1_ahead_of_phase2 [OF arrangement this] settled1 [OF that(1)]
    show ?thesis
      unfolding before_def tr(1) by simp
  qed
  then have b: "list_all (\<lambda>t1. list_all (\<lambda>t2.
      before (Settled (CreateTable t1) None) (Issued (CreateTable t2)) ?tr) phase2_tables)
      phase1_tables"
    unfolding list_all_iff by blast
  have c: "list_all (\<lambda>t. before (Issued (CreateTable t)) ?pragma ?tr) phase2_tables"
    unfolding list_all_iff before_def pre by simp
  have "Settled (CreateTable t) outcome \<notin> set (batch_events env phase1 completion1)"
    if "t \<in> set phase2_tables" for t
    using that arrangement by (auto simp: batch_events_def phase_defs)
  then have d: "list_all (\<lambda>t. \<not> before (Settled (CreateTable t) outcome) ?pragma ?tr)
      phase2_tables"
    unfolding list_all_iff before_def pre by auto
  from a b c d show ?thesis by blast
qed

theorem createEmptyDB_order_witness:
  "set (rev phase1) = set phase1
   \<and> Issued PragmaForeignKeysOn
       \<in> set (createEmptyDB_trace all_ok (rev phase1) (rev phase2) '':memory:'')
   \<and> list_all (\<lambda>t. before (Settled (CreateTable t) None) (Issued PragmaForeignKeysOn)
         (createEmptyDB_trace all_ok (rev phase1) (rev phase2) '':memory:'')) phase1_tables
   \<and> list_all (\<lambda>t1. list_all (\<lambda>t2.
         before (Settled (CreateTable t1) None) (Issued (CreateTable t2))
           (createEmptyDB_trace all_ok (rev phase1) (rev phase2) '':memory:'')) phase2_tables)
         phase1_tables
   \<and> list_all (\<lambda>t. before (Issued (CreateTable t)) (Issued PragmaForeignKeysOn)
         (createEmptyDB_trace all_ok (rev phase1) (rev phase2) '':memory:'')) phase2_tables
   \<and> list_all (\<lambda>t. \<not> before (Settled (CreateTable t) None) (Issued PragmaForeignKeysOn)
         (createEmptyDB_trace all_ok (rev phase1) (rev phase2) '':memory:'')) phase2_tables"
proof -
  have arrangement: "set (rev phase1) = set phase1"
    by simp
  have issued: "Issued PragmaForeignKeysOn
      \<in> set (createEmptyDB_trace all_ok (rev phase1) (rev phase2) '':memory:'')"
    by (simp add: createEmptyDB_trace_def createEmptyDB_run_def all_ok_def batch_result_def
          step_result_def batch_events_def phase_defs)
  from createEmptyDB_order [OF arrangement issued, of None] arrangement issued
  show ?thesis by blast
qed

text \<open>
  C6. \<open>createEmptyDB\<close> is all-or-nothing: when the database cannot be opened the call
  returns an error; when the creation of any one table fails the call returns an error;
  and a handle is returned only when the opening and the creation of every one of the
  seven tables succeeded, and it is a handle over all seven tables.
\<close>

theorem createEmptyDB_all_or_nothing:
  "(open_error env \<noteq> None \<longrightarrow> isl (createEmptyDB env completion1 completion2 path))
   \<and> ((\<exists>t. step_error env (CreateTable t) \<noteq> None)
        \<longrightarrow> isl (createEmptyDB env completion1 completion2 path))
   \<and> (\<forall>db. createEmptyDB env completion1 completion2 path = Inr db \<longrightarrow>
         open_error env = None \<and> (\<forall>t. step_error env (CreateTable t) = None)
         \<and> tables db = UNIV)"
proof -
  let ?r = "createEmptyDB env completion1 completion2 path"
  have handle: "open_error env = None \<and> (\<forall>t. step_error env (CreateTable t) = None)
                  \<and> tables db = UNIV"
    if "?r = Inr db" for db
  proof -
    from that createEmptyDB_ok_iff [of env completion1 completion2 path]
    have "open_error env = None" and "\<forall>s \<in> set (phase1 @ phase2). step_error env s = None"
      by blast+
    moreover from that have "tables db = UNIV"
      using createEmptyDB_value full_schema_tables by blast
    ultimately show ?thesis
      using table_step_in_phases by blast
  qed
  have "isl ?r" if "open_error env \<noteq> None"
  proof (cases ?r)
    case (Inl e)
    then show ?thesis by simp
  next
    case (Inr db)
    from handle [OF Inr] that show ?thesis by simp
  qed
  moreover have "isl ?r" if "\<exists>t. step_error env (CreateTable t) \<noteq> None"
  proof (cases ?r)
    case (Inl e)
    then show ?thesis by simp
  next
    case (Inr db)
    from handle [OF Inr] that show ?thesis by simp
  qed
  ultimately show ?thesis using handle by blast
qed

theorem createEmptyDB_all_or_nothing_witness:
  "open_error cannot_open \<noteq> None
   \<and> isl (createEmptyDB cannot_open phase1 phase2 '':memory:'')
   \<and> step_error hierarchy_fails (CreateTable Hierarchy) \<noteq> None
   \<and> isl (createEmptyDB hierarchy_fails phase1 phase2 '':memory:'')
   \<and> createEmptyDB all_ok phase1 phase2 '':memory:''
        = Inr (fold apply_step (phase1 @ phase2) (new_Database '':memory:''))
   \<and> open_error all_ok = None
   \<and> step_error all_ok (CreateTable Hierarchy) = None
   \<and> tables (fold apply_step (phase1 @ phase2) (new_Database '':memory:'')) = UNIV"
proof -
  have 1: "open_error cannot_open \<noteq> None"
    by (simp add: cannot_open_def)
  have 2: "step_error hierarchy_fails (CreateTable Hierarchy) \<noteq> None"
    by (simp add: hierarchy_fails_def)
  note 3 = createEmptyDB_all_ok [of phase1 phase2 "'':memory:''"]
  from 1 createEmptyDB_all_or_nothing [of cannot_open phase1 phase2 "'':memory:''"]
  have a: "isl (createEmptyDB cannot_open phase1 phase2 '':memory:'')"
    by blast
  from 2 createEmptyDB_all_or_nothing [of hierarchy_fails phase1 phase2 "'':memory:''"]
  have b: "isl (createEmptyDB hierarchy_fails phase1 phase2 '':memory:'')"
    by blast
  from 3 createEmptyDB_all_or_nothing [of all_ok phase1 phase2 "'':memory:''"]
  have c: "open_error all_ok = None \<and> (\<forall>t. step_error all_ok (CreateTable t) = None)
     \<and> tables (fold apply_step (phase1 @ phase2) (new_Database '':memory:'')) = UNIV"
    by blast
  from 1 2 3 a b c show ?thesis by blast
qed

subsection \<open>createInitializedDB\<close>

lemma combine_error_member: "combine rs = Inl e \<Longrightarrow> Inl e \<in> set rs"
  by (induction rs rule: combine.induct) (auto split: sum.splits)

lemma resolutions_member: "r \<in> set (resolutions ps) \<Longrightarrow> Resolved r \<in> set ps"
  by (induction ps rule: resolutions.induct) auto

lemma promise_all_member:
  assumes "promise_all ps = Resolved rs" and "r \<in> set rs"
  shows "Resolved r \<in> set ps"
proof -
  from assms(1) have "rs = resolutions ps"
    by (simp add: promise_all_def split: if_splits)
  with assms(2) show ?thesis
    by (simp add: resolutions_member)
qed

text \<open>The only error result of a vault is a rejection of its \<open>readDir\<close>.\<close>

lemma initializeVault_error:
  assumes "initializeVault co wsRoot vault db = (Resolved (Inl e), db')"
  shows "readDir co (URI_parse (vault2Path co vault wsRoot)) [''*.md''] = ReadDirRejected e"
  using assms unfolding initializeVault_def Let_def
  by (cases "readDir co (URI_parse (vault2Path co vault wsRoot)) [''*.md'']")
     (auto split: prod.splits promise.splits)

lemma initializeVaults_error:
  assumes "initializeVaults co wsRoot vaults db = (ps, db')" and "Resolved (Inl e) \<in> set ps"
  shows "\<exists>vault \<in> set vaults.
           readDir co (URI_parse (vault2Path co vault wsRoot)) [''*.md''] = ReadDirRejected e"
  using assms
proof (induction vaults arbitrary: db ps db')
  case Nil
  then show ?case by simp
next
  case (Cons vault vaults)
  obtain p db1 where first: "initializeVault co wsRoot vault db = (p, db1)"
    by (cases "initializeVault co wsRoot vault db")
  obtain qs db2 where rest: "initializeVaults co wsRoot vaults db1 = (qs, db2)"
    by (cases "initializeVaults co wsRoot vaults db1")
  from Cons.prems(1) first rest have ps: "ps = p # qs"
    by simp
  show ?case
  proof (cases "p = Resolved (Inl e)")
    case True
    with first initializeVault_error show ?thesis
      by fastforce
  next
    case False
    with Cons.prems(2) ps have "Resolved (Inl e) \<in> set qs"
      by simp
    from Cons.IH [OF rest this] show ?thesis
      by simp
  qed
qed

text \<open>
  Whatever the note parser does: when \<open>createInitializedDB\<close> returns an error, it is the
  error of \<open>createEmptyDB\<close> or the reason with which a \<open>readDir\<close> promise rejected. An
  error response of \<open>readDir\<close> and an error the parser resolves with are never returned.
\<close>

lemma createInitializedDB_error_origin:
  assumes "createInitializedDB co env c1 c2 wsRoot vaults path = Resolved (Inl e)"
  shows "createEmptyDB env c1 c2 path = Inl e
         \<or> (\<exists>vault \<in> set vaults.
               readDir co (URI_parse (vault2Path co vault wsRoot)) [''*.md''] = ReadDirRejected e)"
proof (cases "createEmptyDB env c1 c2 path")
  case (Inl e')
  with assms show ?thesis
    by (simp add: createInitializedDB_def)
next
  case (Inr db)
  obtain ps db' where run: "initializeVaults co wsRoot vaults db = (ps, db')"
    by (cases "initializeVaults co wsRoot vaults db")
  from assms Inr run obtain results where all: "promise_all ps = Resolved results"
    and failed: "combine results = Inl e"
    by (auto simp: createInitializedDB_def split: promise.splits sum.splits)
  from combine_error_member [OF failed] promise_all_member [OF all]
  have "Resolved (Inl e) \<in> set ps"
    by blast
  from initializeVaults_error [OF run this] show ?thesis
    by simp
qed

text \<open>
  C3. The code does not do what the claim says. First input: the one note file of the
  vault fails to parse and the parser reports the error; the call returns the handle.
  Second input: the listing of the vault fails with an error response; the parser is
  called without a file list and the call returns no error at all (with this parser it
  throws).
\<close>

theorem createInitializedDB_ignores_vault_failures:
  "createInitializedDB co_parse_error all_ok phase1 phase2 ''/ws'' [vault1] '':memory:''
     = Resolved (Inr (fold apply_step (phase1 @ phase2) (new_Database '':memory:'')))
   \<and> createInitializedDB co_listing_error all_ok phase1 phase2 ''/ws'' [vault1] '':memory:''
     = Rejected [JsError ''TypeError'']"
  unfolding createInitializedDB_def createEmptyDB_all_ok
  by (simp add: initializeVault_def promise_all_def vault1_def example_parser_def example_co_def
        co_parse_error_def co_listing_error_def)

lemma initializeVaults_no_files:
  assumes "\<forall>vault \<in> set vaults.
             readDir co (URI_parse (vault2Path co vault wsRoot)) [''*.md''] = RespData []"
    and "\<forall>files vault db vaultPath flag.
           parseAllNoteFilesForSqlite co (Some files) vault db vaultPath flag
             = (Resolved (fst (parseAllNoteFiles_spec parseFile files vault db)),
                snd (parseAllNoteFiles_spec parseFile files vault db))"
  shows "initializeVaults co wsRoot vaults db
           = (map (\<lambda>vault. Resolved (Inr \<lparr>inserted = 0, note_errors = []\<rparr>)) vaults, db)"
  using assms
proof (induction vaults arbitrary: db)
  case Nil
  then show ?case by simp
next
  case (Cons vault vaults)
  from Cons.prems have "initializeVault co wsRoot vault db
      = (Resolved (Inr \<lparr>inserted = 0, note_errors = []\<rparr>), db)"
    by (simp add: initializeVault_def)
  moreover from Cons have "initializeVaults co wsRoot vaults db
      = (map (\<lambda>vault. Resolved (Inr \<lparr>inserted = 0, note_errors = []\<rparr>)) vaults, db)"
    by simp
  ultimately show ?case by simp
qed

text \<open>
  C7. When \<open>createEmptyDB\<close> has succeeded and the listing of every vault returns no
  note file, \<open>createInitializedDB\<close> succeeds and returns the store as \<open>createEmptyDB\<close>
  left it, which holds no row: the vaults contribute none. The note parser is the one
  modelled from the spec, for any per-file parser.
\<close>

theorem createInitializedDB_no_files:
  assumes created: "createEmptyDB env completion1 completion2 path = Inr db"
    and listing: "\<forall>vault \<in> set vaults.
           readDir co (URI_parse (vault2Path co vault wsRoot)) [''*.md''] = RespData []"
    and parser: "\<forall>files vault db vaultPath flag.
           parseAllNoteFilesForSqlite co (Some files) vault db vaultPath flag
             = (Resolved (fst (parseAllNoteFiles_spec parseFile files vault db)),
                snd (parseAllNoteFiles_spec parseFile files vault db))"
  shows "createInitializedDB co env completion1 completion2 wsRoot vaults path = Resolved (Inr db)
         \<and> rows db = []"
proof -
  have "rows db = []"
    by (subst createEmptyDB_value [OF created]) (rule full_schema_rows)
  moreover
  have "createInitializedDB co env completion1 completion2 wsRoot vaults path = Resolved (Inr db)"
    unfolding createInitializedDB_def created
    by (simp add: initializeVaults_no_files [OF listing parser] promise_all_resolved combine_all_ok)
  ultimately show ?thesis by simp
qed

theorem createInitializedDB_no_files_witness:
  "createInitializedDB co_no_files all_ok (rev phase1) phase2 ''/ws'' [vault1, vault2] '':memory:''
     = Resolved (Inr (fold apply_step (phase1 @ phase2) (new_Database '':memory:'')))
   \<and> rows (fold apply_step (phase1 @ phase2) (new_Database '':memory:'')) = []"
proof -
  have listing: "\<forall>vault \<in> set [vault1, vault2].
      readDir co_no_files (URI_parse (vault2Path co_no_files vault ''/ws'')) [''*.md''] = RespData []"
    by (simp add: co_no_files_def example_co_def)
  have parser: "\<forall>files vault db vaultPath flag.
      parseAllNoteFilesForSqlite co_no_files (Some files) vault db vaultPath flag
        = (Resolved (fst (parseAllNoteFiles_spec (\<lambda>file vault. Inr [(NoteProps, file)])
                            files vault db)),
           snd (parseAllNoteFiles_spec (\<lambda>file vault. Inr [(NoteProps, file)]) files vault db))"
    by (simp add: co_no_files_def example_co_def example_parser_def split: prod.split)
  show ?thesis
    by (rule createInitializedDB_no_files [OF createEmptyDB_all_ok listing parser])
qed

subsection \<open>initSchema\<close>

text \<open>What \<open>initSchema\<close> returns does not depend on the vaults.\<close>

lemma initSchema_returned: "returned (initSchema vaults wsRoot co) = Inr The_schemaDict"
  by (simp add: initSchema_def Let_def)

text \<open>
  C2. The code does not do what the claim says. Input: one vault whose schema file fails
  to parse. \<open>initSchema\<close> returns the dictionary, not a composite error: when it tests
  \<open>errors\<close> the list is still empty, and the parse error reaches it only afterwards.
\<close>

theorem initSchema_parse_error_not_returned:
  "returned (initSchema [vault1] ''/ws'' co_schema_error) = Inr The_schemaDict
   \<and> var_errors (vars_at_return (initSchema [vault1] ''/ws'' co_schema_error)) = []
   \<and> var_errors (vars_settled (initSchema [vault1] ''/ws'' co_schema_error))
       = [JsError ''bad schema'']"
  by (simp add: initSchema_def Let_def initSchema_vault_def combineWithAllErrors_def
        initSchema_callback_def co_schema_error_def example_co_def vault1_def)

lemma fold_upd_lookup:
  "fold (\<lambda>schema dict. dict(root_id schema \<mapsto> schema)) xs d k
     = (case List.find (\<lambda>schema. root_id schema = k) (rev xs) of
          None \<Rightarrow> d k
        | Some s \<Rightarrow> Some s)"
proof (induction xs arbitrary: d)
  case Nil
  then show ?case by simp
next
  case (Cons x xs)
  let ?put = "\<lambda>schema dict. dict(root_id schema \<mapsto> (schema :: 'a SchemaModuleProps_scheme))"
  let ?hit = "\<lambda>schema :: 'a SchemaModuleProps_scheme. root_id schema = k"
  have "fold ?put (x # xs) d k = fold ?put xs (d(root_id x \<mapsto> x)) k"
    by (simp only: fold_simps comp_apply)
  also have "\<dots> = (case List.find ?hit (rev xs) of
                        None \<Rightarrow> (d(root_id x \<mapsto> x)) k
                      | Some s \<Rightarrow> Some s)"
    by (rule Cons.IH)
  also have "\<dots> = (case List.find ?hit (rev (x # xs)) of None \<Rightarrow> d k | Some s \<Rightarrow> Some s)"
    by (simp add: find_in_append split: option.split)
  finally show ?case .
qed

lemma initSchema_callback_dict:
  "var_schemaDict (initSchema_callback res vars) k
     = (case List.find (\<lambda>schema. root_id schema = k) (rev (concat (map schemas res))) of
          None \<Rightarrow> var_schemaDict vars k
        | Some s \<Rightarrow> Some s)"
  unfolding initSchema_callback_def
  by (simp only: initSchema_vars.select_convs fold_upd_lookup)

lemma initSchema_callback_errors:
  "var_errors (initSchema_callback res vars)
     = concat (map (\<lambda>response. case errors response of None \<Rightarrow> [] | Some es \<Rightarrow> es) res)"
  by (simp add: initSchema_callback_def)

lemma initSchema_settled:
  "combineWithAllErrors (map (initSchema_vault co wsRoot) vaults) = Inr res \<Longrightarrow>
   vars_settled (initSchema vaults wsRoot co)
     = initSchema_callback res \<lparr>var_errors = [], var_schemaDict = Map.empty\<rparr>"
  by (simp add: initSchema_def Let_def)

lemma initSchema_pipelines:
  assumes "\<forall>vault \<in> set vaults.
             readDir co (URI_file (vault2Path co vault wsRoot)) [''*.schema.yml'']
               = RespData (listed vault)"
  shows "combineWithAllErrors (map (initSchema_vault co wsRoot) vaults)
           = Inr (map (\<lambda>vault. schemaParse co (listed vault) vault) vaults)"
proof -
  from assms have each: "map (initSchema_vault co wsRoot) vaults
      = map (\<lambda>vault. Inr (schemaParse co (listed vault) vault)) vaults"
    by (simp add: initSchema_vault_def)
  show ?thesis
    unfolding each by (rule combineWithAllErrors_all_ok)
qed

lemma result_errors_member: "Inl e \<in> set rs \<Longrightarrow> result_errors rs \<noteq> []"
  by (induction rs rule: result_errors.induct) auto

text \<open>When the listing of a vault does not answer with data, the combination fails and
  the callback does not run: the variables stay as they were initialised.\<close>

lemma initSchema_not_settled:
  assumes "vault \<in> set vaults"
    and "\<forall>files. readDir co (URI_file (vault2Path co vault wsRoot)) [''*.schema.yml'']
                    \<noteq> RespData files"
  shows "vars_settled (initSchema vaults wsRoot co)
           = \<lparr>var_errors = [], var_schemaDict = Map.empty\<rparr>"
proof -
  from assms(2) obtain e where "initSchema_vault co wsRoot vault = Inl e"
    by (cases "readDir co (URI_file (vault2Path co vault wsRoot)) [''*.schema.yml'']")
       (auto simp: initSchema_vault_def)
  with assms(1) have "Inl e \<in> set (map (initSchema_vault co wsRoot) vaults)"
    by (metis image_eqI list.set_map)
  then have "result_errors (map (initSchema_vault co wsRoot) vaults) \<noteq> []"
    by (rule result_errors_member)
  then show ?thesis
    by (simp add: initSchema_def Let_def combineWithAllErrors_def)
qed

text \<open>
  C5, as stated, fails. The listing of the first vault answers with an error; the second
  vault has one schema file, which is parsed into the schema \<open>book_v1\<close>. This schema is
  not merged: once everything has settled the dictionary holds nothing under its root
  id, and no error has been recorded either.
\<close>

theorem initSchema_parsed_schema_not_merged:
  "initSchema_vault co_one_unreadable ''/ws'' vault2 = Inr \<lparr>schemas = [book_v1], errors = None\<rparr>
   \<and> var_schemaDict (vars_settled (initSchema [vault1, vault2] ''/ws'' co_one_unreadable))
       (root_id book_v1) = None
   \<and> var_errors (vars_settled (initSchema [vault1, vault2] ''/ws'' co_one_unreadable)) = []"
  by (simp add: initSchema_def Let_def initSchema_vault_def combineWithAllErrors_def
        co_one_unreadable_def example_co_def vault1_def vault2_def)

text \<open>
  C5, amended. The merge of \<open>initSchema\<close> is the callback of the combined vault pipelines;
  the statement is about the object \<open>schemaDict\<close> and the list \<open>errors\<close> once the
  combination has settled, and says nothing about the moment at which \<open>initSchema\<close>
  returns. When the listing of every vault answered with data (\<open>listed vault\<close> are its
  schema files), the dictionary holds, under each root id, the last schema with that root
  id among the schemas parsed from all vaults, taken in the order of the vaults and of
  each vault's schemas, and nothing under a root id that no schema has: every schema is
  stored under its root id and a later one replaces an earlier one; the error list holds
  the parse errors only, so a repeated root id is no error. When the listing of some
  vault did not answer with data, the callback does not run: nothing is merged and no
  error is recorded.
\<close>

theorem initSchema_merge_policy:
  "((\<forall>vault \<in> set vaults.
        readDir co (URI_file (vault2Path co vault wsRoot)) [''*.schema.yml'']
          = RespData (listed vault))
     \<longrightarrow> var_schemaDict (vars_settled (initSchema vaults wsRoot co)) k
           = List.find (\<lambda>schema. root_id schema = k)
               (rev (concat (map (\<lambda>vault. schemas (schemaParse co (listed vault) vault)) vaults)))
         \<and> var_errors (vars_settled (initSchema vaults wsRoot co))
           = concat (map (\<lambda>vault. case errors (schemaParse co (listed vault) vault) of
                                     None \<Rightarrow> []
                                   | Some es \<Rightarrow> es) vaults))
   \<and> ((\<exists>vault \<in> set vaults. \<forall>files.
          readDir co (URI_file (vault2Path co vault wsRoot)) [''*.schema.yml''] \<noteq> RespData files)
     \<longrightarrow> var_schemaDict (vars_settled (initSchema vaults wsRoot co)) = Map.empty
         \<and> var_errors (vars_settled (initSchema vaults wsRoot co)) = [])"
proof (intro conjI impI)
  assume data: "\<forall>vault \<in> set vaults.
      readDir co (URI_file (vault2Path co vault wsRoot)) [''*.schema.yml''] = RespData (listed vault)"
  note settled = initSchema_settled [OF initSchema_pipelines [OF data]]
  show "var_schemaDict (vars_settled (initSchema vaults wsRoot co)) k
           = List.find (\<lambda>schema. root_id schema = k)
               (rev (concat (map (\<lambda>vault. schemas (schemaParse co (listed vault) vault)) vaults)))"
    unfolding settled initSchema_callback_dict
    by (simp add: comp_def split: option.split)
  show "var_errors (vars_settled (initSchema vaults wsRoot co))
           = concat (map (\<lambda>vault. case errors (schemaParse co (listed vault) vault) of
                                     None \<Rightarrow> []
                                   | Some es \<Rightarrow> es) vaults)"
    unfolding settled initSchema_callback_errors
    by (simp add: comp_def)
next
  assume "\<exists>vault \<in> set vaults. \<forall>files.
      readDir co (URI_file (vault2Path co vault wsRoot)) [''*.schema.yml''] \<noteq> RespData files"
  then obtain vault where "vault \<in> set vaults"
    and "\<forall>files. readDir co (URI_file (vault2Path co vault wsRoot)) [''*.schema.yml'']
                   \<noteq> RespData files"
    by blast
  note untouched = initSchema_not_settled [OF this]
  show "var_schemaDict (vars_settled (initSchema vaults wsRoot co)) = Map.empty"
    unfolding untouched by simp
  show "var_errors (vars_settled (initSchema vaults wsRoot co)) = []"
    unfolding untouched by simp
qed

theorem initSchema_merge_policy_witness:
  "var_schemaDict (vars_settled (initSchema [vault1, vault2] ''/ws'' co_same_root)) ''book''
     = Some book_v2
   \<and> var_errors (vars_settled (initSchema [vault1, vault2] ''/ws'' co_same_root)) = []
   \<and> var_schemaDict (vars_settled (initSchema [vault1, vault2] ''/ws'' co_one_unreadable))
       = Map.empty
   \<and> var_errors (vars_settled (initSchema [vault1, vault2] ''/ws'' co_one_unreadable)) = []"
proof -
  have data: "\<forall>vault \<in> set [vault1, vault2].
          readDir co_same_root (URI_file (vault2Path co_same_root vault ''/ws'')) [''*.schema.yml'']
            = RespData ((\<lambda>vault. [''book.schema.yml'']) vault)"
    by (simp add: co_same_root_def example_co_def)
  have no_data: "\<exists>vault \<in> set [vault1, vault2]. \<forall>files.
          readDir co_one_unreadable (URI_file (vault2Path co_one_unreadable vault ''/ws''))
            [''*.schema.yml''] \<noteq> RespData files"
    by (simp add: co_one_unreadable_def example_co_def vault1_def)
  from data
    initSchema_merge_policy [of "[vault1, vault2]" co_same_root "''/ws''"
      "\<lambda>vault. [''book.schema.yml'']" "''book''"]
  have merged:
    "var_schemaDict (vars_settled (initSchema [vault1, vault2] ''/ws'' co_same_root)) ''book''
       = Some book_v2
     \<and> var_errors (vars_settled (initSchema [vault1, vault2] ''/ws'' co_same_root)) = []"
    by (simp add: co_same_root_def example_co_def vault1_def vault2_def book_v1_def book_v2_def)
  from no_data
    initSchema_merge_policy [of "[vault1, vault2]" co_one_unreadable "''/ws''"
      "\<lambda>vault. []" "''book''"]
  have "var_schemaDict (vars_settled (initSchema [vault1, vault2] ''/ws'' co_one_unreadable))
       = Map.empty
     \<and> var_errors (vars_settled (initSchema [vault1, vault2] ''/ws'' co_one_unreadable)) = []"
    by blast
  with merged show ?thesis by blast
qed

subsection \<open>readAllSchema\<close>

lemma readAllSchema_vault_resolves:
  assumes "\<forall>e. readDir co (URI_file (vault2Path co vault wsRoot)) [''*.schema.yml'']
                 \<noteq> ReadDirRejected e"
  shows "\<exists>response. readAllSchema_vault co wsRoot vault = Resolved response"
  using assms
  by (cases "readDir co (URI_file (vault2Path co vault wsRoot)) [''*.schema.yml'']")
     (simp_all add: readAllSchema_vault_def Let_def)

text \<open>
  C4. When no \<open>readDir\<close> promise rejects, \<open>readAllSchema\<close> resolves, and for a vault \<open>a\<close>
  of the vault set that has no schema file: the error of the result is a composite that
  holds, for \<open>a\<close>, the composite of one sub-error with the message
  \<open>Unable to get schemas for vault\<close> followed by the name of \<open>a\<close>, the status
  \<open>NO_SCHEMA_FOUND\<close> and the severity \<open>MINOR\<close>; and the data of the result holds the
  schemas parsed from every vault of the set that has schema files.
\<close>

theorem readAllSchema_no_schema_found:
  assumes no_rejection: "\<forall>vault \<in> set vaults. \<forall>e.
        readDir co (URI_file (vault2Path co vault wsRoot)) [''*.schema.yml''] \<noteq> ReadDirRejected e"
    and a: "a \<in> set vaults"
    and a_empty: "readDir co (URI_file (vault2Path co a wsRoot)) [''*.schema.yml''] = RespData []"
  shows "\<exists>sub_errors found.
           readAllSchema vaults wsRoot co
             = Resolved \<lparr>error = Some (DendronCompositeError sub_errors), data = found\<rparr>
         \<and> DendronCompositeError
               [DendronError (''Unable to get schemas for vault '' @ getName co a)
                  (Some NO_SCHEMA_FOUND) (Some MINOR) None] \<in> set sub_errors
         \<and> (\<forall>b \<in> set vaults. \<forall>files.
               readDir co (URI_file (vault2Path co b wsRoot)) [''*.schema.yml''] = RespData files
               \<and> files \<noteq> []
               \<longrightarrow> set (schemas (schemaParse co files b)) \<subseteq> set found)"
proof -
  let ?ps = "map (readAllSchema_vault co wsRoot) vaults"
  let ?rs = "resolutions ?ps"
  let ?err = "\<lambda>response. case error response of None \<Rightarrow> [] | Some e \<Rightarrow> [e]"
  let ?minor = "DendronCompositeError
               [DendronError (''Unable to get schemas for vault '' @ getName co a)
                  (Some NO_SCHEMA_FOUND) (Some MINOR) None]"
  have "\<forall>p \<in> set ?ps. \<exists>response. p = Resolved response"
  proof
    fix p assume "p \<in> set ?ps"
    then obtain vault where "vault \<in> set vaults" and p: "p = readAllSchema_vault co wsRoot vault"
      by auto
    with no_rejection
    have "\<forall>e. readDir co (URI_file (vault2Path co vault wsRoot)) [''*.schema.yml'']
                \<noteq> ReadDirRejected e"
      by blast
    from readAllSchema_vault_resolves [OF this] p
    show "\<exists>response. p = Resolved response" by simp
  qed
  note all = promise_all_no_rejection [OF this]
  have "readAllSchema_vault co wsRoot a = Resolved \<lparr>error = Some ?minor, data = []\<rparr>"
    by (simp add: readAllSchema_vault_def a_empty no_schema_found_def)
  with a have "Resolved \<lparr>error = Some ?minor, data = []\<rparr> \<in> set ?ps"
    by (metis image_eqI list.set_map)
  with all(2) have "\<lparr>error = Some ?minor, data = []\<rparr> \<in> set ?rs"
    by blast
  then have minor: "?minor \<in> set (concat (map ?err ?rs))"
    by force
  have found: "set (schemas (schemaParse co files b)) \<subseteq> set (concat (map data ?rs))"
    if b: "b \<in> set vaults"
      and b_files: "readDir co (URI_file (vault2Path co b wsRoot)) [''*.schema.yml'']
                      = RespData files"
      and b_some: "files \<noteq> []" for b files
  proof -
    let ?b_resp = "\<lparr>error = (case errors (schemaParse co files b) of
                                None \<Rightarrow> None
                              | Some es \<Rightarrow> Some (DendronCompositeError es)),
                    data = schemas (schemaParse co files b)\<rparr>"
    have "readAllSchema_vault co wsRoot b = Resolved ?b_resp"
      using b_some by (simp add: readAllSchema_vault_def b_files Let_def)
    with b have "Resolved ?b_resp \<in> set ?ps"
      by (metis image_eqI list.set_map)
    with all(2) have "?b_resp \<in> set ?rs"
      by blast
    then show ?thesis
      by force
  qed
  from minor have "concat (map ?err ?rs) \<noteq> []"
    by (metis empty_iff list.set(1))
  then have "readAllSchema vaults wsRoot co
      = Resolved \<lparr>error = Some (DendronCompositeError (concat (map ?err ?rs))),
                  data = concat (map data ?rs)\<rparr>"
    by (simp add: readAllSchema_def all(1) Let_def)
  with minor found show ?thesis by blast
qed

theorem readAllSchema_no_schema_found_witness:
  "readAllSchema [vault1, vault2] ''/ws'' co_one_empty
     = Resolved
         \<lparr>error = Some (DendronCompositeError
                    [DendronCompositeError
                       [DendronError ''Unable to get schemas for vault vault1''
                          (Some NO_SCHEMA_FOUND) (Some MINOR) None]]),
          data = [book_v1]\<rparr>
   \<and> getName co_one_empty vault1 = ''vault1''
   \<and> schemas (schemaParse co_one_empty [''book.schema.yml''] vault2) = [book_v1]"
proof -
  have computed: "readAllSchema [vault1, vault2] ''/ws'' co_one_empty
     = Resolved
         \<lparr>error = Some (DendronCompositeError
                    [DendronCompositeError
                       [DendronError ''Unable to get schemas for vault vault1''
                          (Some NO_SCHEMA_FOUND) (Some MINOR) None]]),
          data = [book_v1]\<rparr>"
    by (simp add: readAllSchema_def readAllSchema_vault_def promise_all_def no_schema_found_def
          co_one_empty_def example_co_def vault1_def vault2_def Let_def)
  have 1: "\<forall>vault \<in> set [vault1, vault2]. \<forall>e.
        readDir co_one_empty (URI_file (vault2Path co_one_empty vault ''/ws'')) [''*.schema.yml'']
          \<noteq> ReadDirRejected e"
    by (simp add: co_one_empty_def example_co_def vault1_def vault2_def)
  have 2: "vault1 \<in> set [vault1, vault2]"
    by simp
  have 3: "readDir co_one_empty (URI_file (vault2Path co_one_empty vault1 ''/ws''))
             [''*.schema.yml''] = RespData []"
    by (simp add: co_one_empty_def example_co_def vault1_def)
  from readAllSchema_no_schema_found [OF 1 2 3]
  have "\<exists>sub_errors found.
           readAllSchema [vault1, vault2] ''/ws'' co_one_empty
             = Resolved \<lparr>error = Some (DendronCompositeError sub_errors), data = found\<rparr>"
    by blast
  moreover have "getName co_one_empty vault1 = ''vault1''"
    by (simp add: co_one_empty_def example_co_def vault1_def)
  moreover have "schemas (schemaParse co_one_empty [''book.schema.yml''] vault2) = [book_v1]"
    by (simp add: co_one_empty_def example_co_def)
  ultimately show ?thesis using computed by simp
qed

section \<open>Properties of the auto completion\<close>

lemma registerIfNotRegistered_bound:
  "reg i = Some c \<Longrightarrow> registerIfNotRegistered j cmd reg i = Some c"
  by (auto simp: registerIfNotRegistered_def)

lemma register_calls_bound:
  "reg i = Some c \<Longrightarrow> register_calls calls reg i = Some c"
proof (induction calls arbitrary: reg)
  case Nil
  then show ?case by simp
next
  case (Cons call calls)
  obtain j cmd where call: "call = (j, cmd)" by (cases call)
  from Cons.prems have "registerIfNotRegistered j cmd reg i = Some c"
    by (rule registerIfNotRegistered_bound)
  then show ?case unfolding call by (simp add: Cons.IH)
qed

lemma register_calls_lookup:
  "register_calls calls reg i =
     (case reg i of
        Some c \<Rightarrow> Some c
      | None \<Rightarrow> map_option snd (List.find (\<lambda>call. fst call = i) calls))"
proof (induction calls arbitrary: reg)
  case Nil
  then show ?case by (simp split: option.split)
next
  case (Cons call calls)
  obtain j cmd where call: "call = (j, cmd)" by (cases call)
  show ?case
  proof (cases "reg i")
    case None
    then show ?thesis
      unfolding call by (simp add: Cons.IH registerIfNotRegistered_def)
  next
    case (Some c)
    then show ?thesis
      by (simp add: register_calls_bound)
  qed
qed

text \<open>
  C8. The registry is first-write-wins. Whatever registrations follow, an id that is
  already bound keeps its command, \<open>getCmd\<close> of an id that was unbound returns the command
  of the first registration call made for it, and \<open>getCmd\<close> of an id that is unbound and
  never registered fails with the invalid-state error.
\<close>

theorem registry_first_write_wins:
  "getCmd i (register_calls calls reg) =
     (case reg i of
        Some c \<Rightarrow> Inr c
      | None \<Rightarrow>
          (case List.find (\<lambda>call. fst call = i) calls of
             Some (j, c) \<Rightarrow> Inr c
           | None \<Rightarrow>
               Inl (InvalidStateError
                      (''UI command instance does not exist for '' @ [CHR 0x27] @ id_text i @ [CHR 0x27]))))"
  by (simp add: getCmd_def register_calls_lookup split: option.split prod.split)

text \<open>
  C9. With an empty list of file names \<open>autoCompleteNoteLookup\<close> returns the current
  value unchanged, for every current value and active item value.
\<close>

theorem autoCompleteNoteLookup_no_fnames:
  "autoCompleteNoteLookup special currentValue activeItemValue [] = currentValue"
  by (simp add: autoCompleteNoteLookup_def)

text \<open>
  C10. With a non-empty list of file names, a current value that differs from the active
  item value and an active item value that is one of the file names,
  \<open>autoCompleteNoteLookup\<close> returns the active item value.
\<close>

theorem autoCompleteNoteLookup_active_item:
  assumes "fnames \<noteq> []"
    and "currentValue \<noteq> activeItemValue"
    and "activeItemValue \<in> set fnames"
  shows "autoCompleteNoteLookup special currentValue activeItemValue fnames = activeItemValue"
  using assms by (simp add: autoCompleteNoteLookup_def)

theorem autoCompleteNoteLookup_active_item_witness:
  "[''foo'', ''templates.book''] \<noteq> []
   \<and> ''la'' \<noteq> ''templates.book''
   \<and> ''templates.book'' \<in> set [''foo'', ''templates.book'']
   \<and> autoCompleteNoteLookup (\<lambda>s. False) ''la'' ''templates.book'' [''foo'', ''templates.book'']
       = ''templates.book''"
  using autoCompleteNoteLookup_active_item
    [of "[''foo'', ''templates.book'']" "''la''" "''templates.book''" "\<lambda>s. False"]
  by simp

end
